theory Spec2Isabelle
  imports Main
begin

section \<open>The OpenAPI output types and their Sanitize methods\<close>

text \<open>
  This part embeds \<^verbatim>\<open>internal/output/openapi/openapi.go\<close>. A Go struct is a record whose
  field names carry the receiver name the source uses for that struct (\<open>oa\<close>, \<open>c\<close>,
  \<open>ext\<close>, \<open>l\<close>, \<open>tag\<close>, \<open>srv\<close>), so that \<^verbatim>\<open>oa.Servers\<close> reads \<open>oa_Servers oa\<close>.
  A pointer is an \<open>option\<close> (\<open>None\<close> is \<^verbatim>\<open>nil\<close>), a slice is a list, and a Go map is an
  association list whose order stands for the order in which \<^verbatim>\<open>range\<close> visits the map
  in the run at hand (Go leaves that order open).
\<close>

subsection \<open>Errors and outcomes\<close>

text \<open>
  \<^verbatim>\<open>errors.New(file, field, line, key)\<close> builds an \<^verbatim>\<open>*errors.Error\<close>; the two message
  keys of package \<^verbatim>\<open>locale\<close> that this file passes are the two constructors of \<open>message\<close>.
\<close>

datatype message = ErrInvalidFormat | ErrRequired

record Error =
  File :: string
  Field :: string
  Line :: int
  Message :: message

definition errors_New :: "string \<Rightarrow> string \<Rightarrow> int \<Rightarrow> message \<Rightarrow> Error" where
  "errors_New file field line key = \<lparr>File = file, Field = field, Line = line, Message = key\<rparr>"

text \<open>
  A call of a Sanitize method either returns (\<^verbatim>\<open>nil\<close> or an error) or panics on a
  nil pointer dereference.
\<close>

datatype outcome = Panic | Return "Error option"

text \<open>
  \<^verbatim>\<open>if err := x.Sanitize(); err != nil { err.Field = p + err.Field; return err }\<close>:
  \<open>prefixed p r\<close> is what the caller hands upward when the callee's outcome is \<open>r\<close>, and
  \<open>or_else r k\<close> goes on with \<open>k\<close> only when \<open>r\<close> is a return of \<^verbatim>\<open>nil\<close>.
\<close>

fun prefixed :: "string \<Rightarrow> outcome \<Rightarrow> outcome" where
  "prefixed p (Return (Some err)) = Return (Some (err\<lparr>Field := p @ Field err\<rparr>))"
| "prefixed p (Return None) = Return None"
| "prefixed p Panic = Panic"

fun or_else :: "outcome \<Rightarrow> outcome \<Rightarrow> outcome" where
  "or_else (Return None) k = k"
| "or_else (Return (Some err)) k = Return (Some err)"
| "or_else Panic k = Panic"

subsection \<open>strconv.Itoa on a slice index\<close>

definition digit_char :: "nat \<Rightarrow> char" where
  "digit_char d = ''0123456789'' ! d"

fun Itoa :: "nat \<Rightarrow> string" where
  "Itoa n = (if n < 10 then [digit_char n] else Itoa (n div 10) @ [digit_char (n mod 10)])"

declare Itoa.simps [simp del]

subsection \<open>The structs\<close>

text \<open>
  \<^verbatim>\<open>Server\<close> is declared in another file of the package; the composite literal
  \<^verbatim>\<open>&Server{URL: "/"}\<close> shows its \<^verbatim>\<open>URL\<close> field, the only one this file names.
  The structs \<^verbatim>\<open>Info\<close>, \<^verbatim>\<open>PathItem\<close>, \<^verbatim>\<open>Schema\<close>, \<^verbatim>\<open>Response\<close>, \<^verbatim>\<open>Parameter\<close>,
  \<^verbatim>\<open>RequestBody\<close>, \<^verbatim>\<open>Header\<close>, \<^verbatim>\<open>SecurityScheme\<close>, \<^verbatim>\<open>Callback\<close> and
  \<^verbatim>\<open>SecurityRequirement\<close> are declared elsewhere too, and this file never looks into
  them: they are type parameters.
\<close>

record Server =
  srv_URL :: string

record ExternalDocumentation =
  ext_Description :: string
  ext_URL :: string

record Link =
  l_OperationRef :: string
  l_OperationID :: string
  l_Parameters :: "(string \<times> string) list"
  l_RequestBody :: "(string \<times> string) list"
  l_Description :: string
  l_Server :: "Server option"
  l_Ref :: string

record Tag =
  tag_Name :: string
  tag_Description :: string
  tag_ExternalDocs :: "ExternalDocumentation option"

record Example =
  ex_Summary :: string
  ex_Description :: string
  ex_Value :: string
  ex_ExternalValue :: string
  ex_Ref :: string

record ('sc, 'rs, 'pa, 'rb, 'hd, 'ss, 'cb) Components =
  c_Schemas :: "(string \<times> 'sc option) list"
  c_Responses :: "(string \<times> 'rs option) list"
  c_Parameters :: "(string \<times> 'pa option) list"
  c_Examples :: "(string \<times> Example option) list"
  c_RequestBodies :: "(string \<times> 'rb option) list"
  c_Headers :: "(string \<times> 'hd option) list"
  c_SecuritySchemes :: "(string \<times> 'ss option) list"
  c_Links :: "(string \<times> Link option) list"
  c_Callbacks :: "(string \<times> 'cb option) list"

record ('inf, 'pt, 'sr, 'sc, 'rs, 'pa, 'rb, 'hd, 'ss, 'cb) OpenAPI =
  oa_OpenAPI :: string
  oa_Info :: "'inf option"
  oa_Servers :: "Server option list"
  oa_Paths :: "(string \<times> 'pt option) list"
  oa_Components :: "('sc, 'rs, 'pa, 'rb, 'hd, 'ss, 'cb) Components option"
  oa_Security :: "'sr option list"
  oa_Tags :: "Tag option list"
  oa_ExternalDocs :: "ExternalDocumentation option"

definition LatestVersion :: string where
  "LatestVersion = ''3.0.1''"

text \<open>
  \<^verbatim>\<open>newTag\<close> copies the name and the description of a \<^verbatim>\<open>doc.Tag\<close>, a struct of
  another package; the two fields it reads are its arguments here.
\<close>

definition newTag :: "string \<Rightarrow> string \<Rightarrow> Tag" where
  "newTag name description =
     \<lparr>tag_Name = name, tag_Description = description, tag_ExternalDocs = None\<rparr>"

subsection \<open>The functions this file calls and does not define\<close>

text \<open>
  \<^verbatim>\<open>version.SemVerValid\<close> and \<^verbatim>\<open>is.URL\<close> come from other modules, and the Sanitize
  methods of \<^verbatim>\<open>Info\<close>, \<^verbatim>\<open>Server\<close>, \<^verbatim>\<open>Schema\<close>, \<^verbatim>\<open>Response\<close>, \<^verbatim>\<open>Parameter\<close>,
  \<^verbatim>\<open>RequestBody\<close> and \<^verbatim>\<open>Header\<close> from other files of the package. They are the
  fields of one record that every function below takes. A method reached through a
  pointer that the caller has not tested takes an \<open>option\<close>: Go calls a pointer method
  on a \<^verbatim>\<open>nil\<close> receiver, and what happens then is the method's business. The methods
  are taken as checks: what they may write into their receiver is not modelled.
\<close>

record ('inf, 'sc, 'rs, 'pa, 'rb, 'hd) callees =
  SemVerValid :: "string \<Rightarrow> bool"
  is_URL :: "string \<Rightarrow> bool"
  Info_Sanitize :: "'inf \<Rightarrow> outcome"
  Server_Sanitize :: "Server option \<Rightarrow> outcome"
  Schema_Sanitize :: "'sc option \<Rightarrow> outcome"
  Response_Sanitize :: "'rs option \<Rightarrow> outcome"
  Parameter_Sanitize :: "'pa option \<Rightarrow> outcome"
  RequestBody_Sanitize :: "'rb option \<Rightarrow> outcome"
  Header_Sanitize :: "'hd option \<Rightarrow> outcome"

subsection \<open>ExternalDocumentation.Sanitize, Link.Sanitize, Tag.Sanitize\<close>

text \<open>Both callers test the pointer before the call, so the receiver is not \<^verbatim>\<open>nil\<close>.\<close>

definition ExternalDocumentation_Sanitize ::
  "('inf, 'sc, 'rs, 'pa, 'rb, 'hd) callees \<Rightarrow> ExternalDocumentation \<Rightarrow> outcome" where
  "ExternalDocumentation_Sanitize cs ext =
     (if \<not> is_URL cs (ext_URL ext) then Return (Some (errors_New '''' ''url'' 0 ErrInvalidFormat))
      else Return None)"

text \<open>
  \<^verbatim>\<open>l.Server.Sanitize()\<close>: reading \<^verbatim>\<open>l.Server\<close> dereferences \<open>l\<close>; the pointer read
  there goes to \<^verbatim>\<open>Server.Sanitize\<close> as it is, with no test.
\<close>

fun Link_Sanitize :: "('inf, 'sc, 'rs, 'pa, 'rb, 'hd) callees \<Rightarrow> Link option \<Rightarrow> outcome" where
  "Link_Sanitize cs None = Panic"
| "Link_Sanitize cs (Some l) = prefixed ''server.'' (Server_Sanitize cs (l_Server l))"

fun Tag_Sanitize :: "('inf, 'sc, 'rs, 'pa, 'rb, 'hd) callees \<Rightarrow> Tag option \<Rightarrow> outcome" where
  "Tag_Sanitize cs None = Panic"
| "Tag_Sanitize cs (Some tag) =
     (if tag_Name tag = '''' then Return (Some (errors_New '''' ''name'' 0 ErrInvalidFormat))
      else case tag_ExternalDocs tag of
             None \<Rightarrow> Return None
           | Some ext \<Rightarrow> prefixed ''externalDocs.'' (ExternalDocumentation_Sanitize cs ext))"

subsection \<open>Components.Sanitize\<close>

text \<open>
  Each of the six loops has the same body:
  \<^verbatim>\<open>for key, item := range m { if err := item.Sanitize(); err != nil {
      err.Field = name + "[" + key + "]." + err.Field; return err } }\<close>.
\<close>

fun range_map :: "('a option \<Rightarrow> outcome) \<Rightarrow> string \<Rightarrow> (string \<times> 'a option) list \<Rightarrow> outcome" where
  "range_map sanitize name [] = Return None"
| "range_map sanitize name ((key, item) # rest) =
     or_else (prefixed (name @ ''['' @ key @ ''].'') (sanitize item))
             (range_map sanitize name rest)"

definition Components_Sanitize ::
  "('inf, 'sc, 'rs, 'pa, 'rb, 'hd) callees \<Rightarrow> ('sc, 'rs, 'pa, 'rb, 'hd, 'ss, 'cb) Components \<Rightarrow> outcome" where
  "Components_Sanitize cs c =
     or_else (range_map (Schema_Sanitize cs) ''schemas'' (c_Schemas c))
    (or_else (range_map (Response_Sanitize cs) ''response'' (c_Responses c))
    (or_else (range_map (Parameter_Sanitize cs) ''parameters'' (c_Parameters c))
    (or_else (range_map (RequestBody_Sanitize cs) ''requestBodies'' (c_RequestBodies c))
    (or_else (range_map (Header_Sanitize cs) ''headers'' (c_Headers c))
             (range_map (Link_Sanitize cs) ''links'' (c_Links c))))))"

subsection \<open>OpenAPI.Sanitize\<close>

text \<open>
  The loop over \<^verbatim>\<open>oa.Servers\<close> (lines 125 to 130) assigns
  \<^verbatim>\<open>err.Field = "servers[" + strconv.Itoa(index) + "]."\<close>: the right-hand side does
  not mention \<^verbatim>\<open>err.Field\<close>. The loop over \<^verbatim>\<open>oa.Tags\<close> (lines 144 to 149) appends it.
\<close>

fun range_Servers :: "('inf, 'sc, 'rs, 'pa, 'rb, 'hd) callees \<Rightarrow> nat \<Rightarrow> Server option list \<Rightarrow> outcome" where
  "range_Servers cs index [] = Return None"
| "range_Servers cs index (srv # rest) =
     (case Server_Sanitize cs srv of
        Panic \<Rightarrow> Panic
      | Return (Some err) \<Rightarrow> Return (Some (err\<lparr>Field := ''servers['' @ Itoa index @ ''].''\<rparr>))
      | Return None \<Rightarrow> range_Servers cs (index + 1) rest)"

fun range_Tags :: "('inf, 'sc, 'rs, 'pa, 'rb, 'hd) callees \<Rightarrow> nat \<Rightarrow> Tag option list \<Rightarrow> outcome" where
  "range_Tags cs index [] = Return None"
| "range_Tags cs index (item # rest) =
     or_else (prefixed (''tags['' @ Itoa index @ ''].'') (Tag_Sanitize cs item))
             (range_Tags cs (index + 1) rest)"

text \<open>
  The method writes \<^verbatim>\<open>oa.OpenAPI\<close> and \<^verbatim>\<open>oa.Servers\<close>, so it returns the document
  beside its outcome. \<open>Sanitize_from_Servers\<close> is the method from line 125 on, where
  the document is no longer written.
\<close>

definition Sanitize_from_Servers ::
  "('inf, 'sc, 'rs, 'pa, 'rb, 'hd) callees \<Rightarrow>
   ('inf, 'pt, 'sr, 'sc, 'rs, 'pa, 'rb, 'hd, 'ss, 'cb) OpenAPI \<Rightarrow> outcome" where
  "Sanitize_from_Servers cs oa =
     or_else (range_Servers cs 0 (oa_Servers oa))
    (if length (oa_Paths oa) = 0 then Return (Some (errors_New '''' ''paths'' 0 ErrRequired))
     else
     or_else (case oa_Components oa of
                None \<Rightarrow> Return None
              | Some c \<Rightarrow> prefixed ''components.'' (Components_Sanitize cs c))
    (or_else (range_Tags cs 0 (oa_Tags oa))
             (case oa_ExternalDocs oa of
                None \<Rightarrow> Return None
              | Some ext \<Rightarrow> prefixed ''externalDocs.'' (ExternalDocumentation_Sanitize cs ext))))"

definition OpenAPI_Sanitize ::
  "('inf, 'sc, 'rs, 'pa, 'rb, 'hd) callees \<Rightarrow>
   ('inf, 'pt, 'sr, 'sc, 'rs, 'pa, 'rb, 'hd, 'ss, 'cb) OpenAPI \<Rightarrow>
   outcome \<times> ('inf, 'pt, 'sr, 'sc, 'rs, 'pa, 'rb, 'hd, 'ss, 'cb) OpenAPI" where
  "OpenAPI_Sanitize cs oa0 =
     (let oa1 = (if oa_OpenAPI oa0 = '''' then oa0\<lparr>oa_OpenAPI := LatestVersion\<rparr> else oa0) in
      if \<not> SemVerValid cs (oa_OpenAPI oa1)
      then (Return (Some (errors_New '''' ''openapi'' 0 ErrInvalidFormat)), oa1)
      else case oa_Info oa1 of
        None \<Rightarrow> (Return (Some (errors_New '''' ''info'' 0 ErrRequired)), oa1)
      | Some info \<Rightarrow>
         (case Info_Sanitize cs info of
            Panic \<Rightarrow> (Panic, oa1)
          | Return (Some err) \<Rightarrow> (Return (Some (err\<lparr>Field := ''info.'' @ Field err\<rparr>)), oa1)
          | Return None \<Rightarrow>
             (let oa2 = (if length (oa_Servers oa1) = 0
                         then oa1\<lparr>oa_Servers := [Some \<lparr>srv_URL = ''/''\<rparr>]\<rparr> else oa1)
              in (Sanitize_from_Servers cs oa2, oa2))))"

subsection \<open>Inputs for the examples\<close>

text \<open>
  The theorems below hold for every record of callees. To run \<open>OpenAPI_Sanitize\<close> on a
  concrete document the examples use the stand-ins of \<open>sample_callees\<close>: the only valid
  version is \<^verbatim>\<open>3.0.1\<close>, an \<^verbatim>\<open>Info\<close> is its title and must not be empty, and a
  \<^verbatim>\<open>Server\<close> must have a URL that is not empty; the stand-in for \<^verbatim>\<open>Server.Sanitize\<close>
  reads \<^verbatim>\<open>srv.URL\<close> and so panics on a \<^verbatim>\<open>nil\<close> receiver.
\<close>

definition sample_callees :: "(string, unit, unit, unit, unit, unit) callees" where
  "sample_callees =
     \<lparr>SemVerValid = (\<lambda>v. v = ''3.0.1''),
      is_URL = (\<lambda>u. u = ''https://example.com''),
      Info_Sanitize = (\<lambda>title. if title = '''' then Return (Some (errors_New '''' ''title'' 0 ErrRequired))
                                 else Return None),
      Server_Sanitize = (\<lambda>srv. case srv of
                                   None \<Rightarrow> Panic
                                 | Some s \<Rightarrow> if srv_URL s = '''' then Return (Some (errors_New '''' ''url'' 0 ErrRequired))
                                            else Return None),
      Schema_Sanitize = (\<lambda>x. Return None),
      Response_Sanitize = (\<lambda>x. Return None),
      Parameter_Sanitize = (\<lambda>x. Return None),
      RequestBody_Sanitize = (\<lambda>x. Return None),
      Header_Sanitize = (\<lambda>x. Return None)\<rparr>"

definition sample_doc :: "(string, unit, unit, unit, unit, unit, unit, unit, unit, unit) OpenAPI" where
  "sample_doc =
     \<lparr>oa_OpenAPI = ''3.0.1'', oa_Info = Some ''Pet store'', oa_Servers = [],
      oa_Paths = [(''/pets'', Some ())], oa_Components = None, oa_Security = [],
      oa_Tags = [], oa_ExternalDocs = None\<rparr>"

section \<open>The tag parsers of package doc\<close>

text \<open>
  The tests of package \<^verbatim>\<open>doc\<close> are among the sources; the functions they call
  (\<^verbatim>\<open>parseExample\<close>, \<^verbatim>\<open>parseHeader\<close>, \<^verbatim>\<open>isOptional\<close>) and the types \<^verbatim>\<open>Body\<close>,
  \<^verbatim>\<open>Header\<close> and \<^verbatim>\<open>Example\<close> are not. The definitions of this section follow the
  specification (its sections 3 and 4.3) and agree with what the tests assert. A parser
  takes the body of its tag, the text after the tag's name, and the Body it writes to.
\<close>

text \<open>
  Modelled from the spec: the newline that ends the summary line of an
  \<^verbatim>\<open>@apiExample\<close>, "an embedded newline" (the tokenizer of package \<^verbatim>\<open>doc\<close> is missing).
\<close>

definition newline :: char where
  "newline = CHR 0x0A"

text \<open>
  Modelled from the spec: the "whitespace" that separates tokens (the tokenizer of
  package \<^verbatim>\<open>doc\<close> is missing): tab, newline, vertical tab, form feed, carriage return
  and space.
\<close>

definition is_space :: "char \<Rightarrow> bool" where
  "is_space c = (c \<in> set [CHR 0x09, CHR 0x0A, CHR 0x0B, CHR 0x0C, CHR 0x0D, CHR 0x20])"

text \<open>
  Modelled from the spec: the tokens of a tag body, "split on runs of whitespace" (the
  tokenizer of package \<^verbatim>\<open>doc\<close> is missing). Their number is the token count of the
  minimum-token policy.
\<close>

function tokens :: "string \<Rightarrow> string list" where
  "tokens [] = []"
| "tokens (c # cs) =
     (if is_space c then tokens cs
      else (c # takeWhile (\<lambda>x. \<not> is_space x) cs) # tokens (dropWhile (\<lambda>x. \<not> is_space x) cs))"
  by pat_completeness auto
termination
  by (relation "measure length") (auto simp: le_imp_less_Suc length_dropWhile_le)

text \<open>
  Modelled from the spec: the split of a tag body into at most \<open>n\<close> declared fields,
  "tokens are split on runs of whitespace, except the final declared field, which always
  consumes the remainder of the body verbatim" (the tokenizer of package \<^verbatim>\<open>doc\<close> is
  missing). A field with nothing in it but whitespace is absent.
\<close>

fun split_fields :: "nat \<Rightarrow> string \<Rightarrow> string list" where
  "split_fields 0 s = []"
| "split_fields (Suc n) s =
     (let t = dropWhile is_space s in
      if t = [] then []
      else if n = 0 then [t]
      else takeWhile (\<lambda>x. \<not> is_space x) t # split_fields n (dropWhile (\<lambda>x. \<not> is_space x) t))"

text \<open>
  Modelled from the spec: the capital letters whose case "case-insensitively" ignores
  (\<^verbatim>\<open>isOptional\<close> and what it calls are missing).
\<close>

definition upper_letters :: string where
  "upper_letters = ''ABCDEFGHIJKLMNOPQRSTUVWXYZ''"

text \<open>
  Modelled from the spec: the small letters, in the order of their capitals
  (\<^verbatim>\<open>isOptional\<close> and what it calls are missing).
\<close>

definition lower_letters :: string where
  "lower_letters = ''abcdefghijklmnopqrstuvwxyz''"

text \<open>
  Modelled from the spec: the case folding of one byte (\<^verbatim>\<open>isOptional\<close> and what it calls
  are missing; its test folds with \<^verbatim>\<open>bytes.ToUpper\<close>). A capital letter becomes its small
  letter, every other byte stays.
\<close>

definition to_lower :: "char \<Rightarrow> char" where
  "to_lower c = (case map_of (zip upper_letters lower_letters) c of Some l \<Rightarrow> l | None \<Rightarrow> c)"

text \<open>
  Modelled from the spec: \<^verbatim>\<open>isOptional\<close> (missing; its test is \<^verbatim>\<open>TestIsOptional\<close>), "a
  token is optional iff it case-insensitively equals the literal optional", computed
  by folding the case and comparing.
\<close>

definition isOptional :: "string \<Rightarrow> bool" where
  "isOptional x = (map to_lower x = ''optional'')"

text \<open>
  Modelled from the spec: what "case-insensitively equals" means for one byte, stated
  without \<open>to_lower\<close>. Two characters are the same letter when they are equal or one is
  the capital of the other.
\<close>

definition same_letter :: "char \<Rightarrow> char \<Rightarrow> bool" where
  "same_letter a b =
     (a = b \<or> (a, b) \<in> set (zip upper_letters lower_letters)
            \<or> (b, a) \<in> set (zip upper_letters lower_letters))"

text \<open>
  Modelled from the spec: "case-insensitively equals" for byte strings, the relation
  the claim about \<^verbatim>\<open>isOptional\<close> speaks of. Two strings are equal up to case when they
  have the same length and hold the same letter at every position.
\<close>

definition equal_fold :: "string \<Rightarrow> string \<Rightarrow> bool" where
  "equal_fold x y = list_all2 same_letter x y"

text \<open>
  Modelled from the spec: the entity \<^verbatim>\<open>Header\<close> of section 3, "name, summary: text,
  optional: bool" (its declaration is missing), with the field names the test reads
  (\<^verbatim>\<open>h.Name\<close>, \<^verbatim>\<open>h.Summary\<close>, \<^verbatim>\<open>h.Optional\<close>).
\<close>

record Doc_Header =
  h_Name :: string
  h_Summary :: string
  h_Optional :: bool

text \<open>
  Modelled from the spec: the entity \<^verbatim>\<open>Example\<close> of section 3, "mimetype: string,
  summary: text, value: raw text (verbatim, including internal newlines)" (its
  declaration is missing), with the field names the test reads.
\<close>

record Doc_Example =
  e_Mimetype :: string
  e_Summary :: string
  e_Value :: string

text \<open>
  Modelled from the spec: the entity \<^verbatim>\<open>Body\<close> of section 3, "headers: ordered list of
  Header, examples: ordered list of Example, type: optional Type" (its declaration is
  missing). The Type tree plays no part in the two parsers below and is a type
  parameter.
\<close>

record 'ty Body =
  body_Headers :: "Doc_Header list"
  body_Examples :: "Doc_Example list"
  body_Type :: "'ty option"

text \<open>
  Modelled from the spec: \<^verbatim>\<open>Body.parseExample\<close> (missing; its test is
  \<^verbatim>\<open>TestBody_parseExample\<close>), "first token = mimetype, remaining tokens up to (but not
  including) an embedded newline = summary, everything after the first newline = the
  example value verbatim. Appends to the owning Body's Examples list", and, under the
  minimum-token policy, "performs no mutation and reports no error" when a field is
  absent. The test calls it as a statement: it returns nothing, so the model returns
  the Body.
\<close>

definition parseExample :: "string \<Rightarrow> 'ty Body \<Rightarrow> 'ty Body" where
  "parseExample text body =
     (let line = takeWhile (\<lambda>c. c \<noteq> newline) text;
          rest = drop (Suc (length line)) text
      in case split_fields 2 line of
           [mimetype, summary] \<Rightarrow>
             if dropWhile is_space rest = [] then body
             else body\<lparr>body_Examples := body_Examples body @
                    [\<lparr>e_Mimetype = mimetype, e_Summary = summary, e_Value = rest\<rparr>]\<rparr>
         | _ \<Rightarrow> body)"

text \<open>
  Modelled from the spec: \<^verbatim>\<open>Body.parseHeader\<close> (missing; its test is
  \<^verbatim>\<open>TestBody_parseHeader\<close>), "first token = header name (case preserved), second token
  checked via the optional-detector, remainder = summary. Appends to the owning Body's
  Headers list", with the same minimum-token policy.
\<close>

definition parseHeader :: "string \<Rightarrow> 'ty Body \<Rightarrow> 'ty Body" where
  "parseHeader text body =
     (case split_fields 3 text of
        [name, opt, summary] \<Rightarrow>
          body\<lparr>body_Headers := body_Headers body @
                 [\<lparr>h_Name = name, h_Summary = summary, h_Optional = isOptional opt\<rparr>]\<rparr>
      | _ \<Rightarrow> body)"

text \<open>
  Modelled from the spec: the Body the tests start from, \<^verbatim>\<open>&Body{}\<close> (the declaration
  of \<^verbatim>\<open>Body\<close> is missing): no header, no example, no type.
\<close>

definition empty_Body :: "unit Body" where
  "empty_Body = \<lparr>body_Headers = [], body_Examples = [], body_Type = None\<rparr>"

section \<open>Properties of the Sanitize methods\<close>

subsection \<open>Auxiliary facts\<close>

lemma range_Servers_first_failure:
  "i < length srvs \<Longrightarrow> (\<forall>j<i. Server_Sanitize cs (srvs ! j) = Return None) \<Longrightarrow>
   Server_Sanitize cs (srvs ! i) = Return (Some e) \<Longrightarrow>
   range_Servers cs k srvs = Return (Some (e\<lparr>Field := ''servers['' @ Itoa (k + i) @ ''].''\<rparr>))"
proof (induction srvs arbitrary: i k)
  case Nil
  then show ?case by simp
next
  case (Cons srv rest)
  show ?case
  proof (cases i)
    case 0
    with Cons.prems show ?thesis by simp
  next
    case (Suc i')
    from Cons.prems Suc have head: "Server_Sanitize cs srv = Return None" by auto
    from Cons.prems Suc have "i' < length rest"
      and "\<forall>j<i'. Server_Sanitize cs (rest ! j) = Return None"
      and "Server_Sanitize cs (rest ! i') = Return (Some e)" by auto
    from Cons.IH[OF this, of "k + 1"] head Suc show ?thesis by simp
  qed
qed

lemma range_Servers_all_pass:
  "(\<forall>srv \<in> set srvs. Server_Sanitize cs srv = Return None) \<Longrightarrow> range_Servers cs k srvs = Return None"
  by (induction srvs arbitrary: k) auto

lemma OpenAPI_Sanitize_past_Info:
  assumes "SemVerValid cs (if oa_OpenAPI oa = '''' then LatestVersion else oa_OpenAPI oa)"
    and "oa_Info oa = Some info" and "Info_Sanitize cs info = Return None"
  shows "OpenAPI_Sanitize cs oa =
    (Sanitize_from_Servers cs
       (oa\<lparr>oa_OpenAPI := (if oa_OpenAPI oa = '''' then LatestVersion else oa_OpenAPI oa),
           oa_Servers := (if oa_Servers oa = [] then [Some \<lparr>srv_URL = ''/''\<rparr>] else oa_Servers oa)\<rparr>),
     oa\<lparr>oa_OpenAPI := (if oa_OpenAPI oa = '''' then LatestVersion else oa_OpenAPI oa),
        oa_Servers := (if oa_Servers oa = [] then [Some \<lparr>srv_URL = ''/''\<rparr>] else oa_Servers oa)\<rparr>)"
  using assms by (auto simp: OpenAPI_Sanitize_def Let_def split: if_splits)

lemma range_Tags_first_failure:
  "i < length tags \<Longrightarrow> (\<forall>j<i. Tag_Sanitize cs (tags ! j) = Return None) \<Longrightarrow>
   Tag_Sanitize cs (tags ! i) = Return (Some e) \<Longrightarrow>
   range_Tags cs k tags = Return (Some (e\<lparr>Field := ''tags['' @ Itoa (k + i) @ ''].'' @ Field e\<rparr>))"
proof (induction tags arbitrary: i k)
  case Nil
  then show ?case by simp
next
  case (Cons item rest)
  show ?case
  proof (cases i)
    case 0
    with Cons.prems show ?thesis by simp
  next
    case (Suc i')
    from Cons.prems Suc have head: "Tag_Sanitize cs item = Return None" by auto
    from Cons.prems Suc have "i' < length rest"
      and "\<forall>j<i'. Tag_Sanitize cs (rest ! j) = Return None"
      and "Tag_Sanitize cs (rest ! i') = Return (Some e)" by auto
    from Cons.IH[OF this, of "k + 1"] head Suc show ?thesis by simp
  qed
qed

subsection \<open>The version string\<close>

text \<open>
  Claim C1, as amended. When \<^verbatim>\<open>oa.OpenAPI\<close> is empty, Sanitize stores \<open>LatestVersion\<close>
  in it before anything else, and the document it leaves behind carries that version
  whatever the outcome. The version is then checked: a version that is present and
  that \<^verbatim>\<open>version.SemVerValid\<close> rejects makes Sanitize return, with the document
  untouched, the error \<^verbatim>\<open>errors.New("", "openapi", 0, locale.ErrInvalidFormat)\<close>: its
  kind is the invalid format, and its field is \<^verbatim>\<open>openapi\<close>, the name of the field in
  the serialised document. The same error comes back for an absent version when the
  validator rejects \<open>LatestVersion\<close>.
\<close>

theorem Sanitize_version:
  "(oa_OpenAPI oa = '''' \<longrightarrow> oa_OpenAPI (snd (OpenAPI_Sanitize cs oa)) = LatestVersion) \<and>
   (oa_OpenAPI oa = '''' \<and> \<not> SemVerValid cs LatestVersion \<longrightarrow>
      fst (OpenAPI_Sanitize cs oa) = Return (Some (errors_New '''' ''openapi'' 0 ErrInvalidFormat))) \<and>
   (oa_OpenAPI oa \<noteq> '''' \<and> \<not> SemVerValid cs (oa_OpenAPI oa) \<longrightarrow>
      OpenAPI_Sanitize cs oa = (Return (Some (errors_New '''' ''openapi'' 0 ErrInvalidFormat)), oa))"
  by (auto simp: OpenAPI_Sanitize_def Let_def split: option.splits outcome.splits)

text \<open>
  The theorem at two documents: one with no version, one with the version
  \<^verbatim>\<open>4.0\<close>, which the stand-in validator rejects.
\<close>

theorem Sanitize_version_witness:
  "oa_OpenAPI (snd (OpenAPI_Sanitize sample_callees (sample_doc\<lparr>oa_OpenAPI := ''''\<rparr>))) = LatestVersion \<and>
   OpenAPI_Sanitize sample_callees (sample_doc\<lparr>oa_OpenAPI := ''4.0''\<rparr>) =
     (Return (Some (errors_New '''' ''openapi'' 0 ErrInvalidFormat)), sample_doc\<lparr>oa_OpenAPI := ''4.0''\<rparr>)"
  using Sanitize_version [of "sample_doc\<lparr>oa_OpenAPI := ''''\<rparr>" sample_callees]
        Sanitize_version [of "sample_doc\<lparr>oa_OpenAPI := ''4.0''\<rparr>" sample_callees]
  by (simp add: sample_callees_def)

text \<open>
  Claim C1 puts the error on the field \<^verbatim>\<open>version\<close>. For the version \<^verbatim>\<open>4.0\<close> the
  error that comes back names the field \<^verbatim>\<open>openapi\<close>.
\<close>

theorem Sanitize_version_field_counterexample:
  "fst (OpenAPI_Sanitize sample_callees (sample_doc\<lparr>oa_OpenAPI := ''4.0''\<rparr>)) =
     Return (Some (errors_New '''' ''openapi'' 0 ErrInvalidFormat)) \<and>
   Field (errors_New '''' ''openapi'' 0 ErrInvalidFormat) \<noteq> ''version''"
  by (simp add: OpenAPI_Sanitize_def sample_callees_def sample_doc_def errors_New_def)

subsection \<open>The field path in the loop over the servers\<close>

text \<open>
  Claim C2 asks every caller to put its own location in front of the field path of the
  error it hands upward, the loop over the servers included. At a document with the
  single server \<^verbatim>\<open>&Server{URL: ""}\<close> the stand-in for \<^verbatim>\<open>Server.Sanitize\<close> reports the
  field \<^verbatim>\<open>url\<close>, and the error that leaves \<^verbatim>\<open>OpenAPI.Sanitize\<close> has the field
  \<^verbatim>\<open>servers[0].\<close> where the claim has \<^verbatim>\<open>servers[0].url\<close>: the inner path is gone. The
  loop over the tags keeps it (\<open>range_Tags_first_failure\<close>), and so does every other
  caller in the file (\<open>prefixed\<close>).
\<close>

theorem Sanitize_servers_drops_inner_field:
  "fst (OpenAPI_Sanitize sample_callees (sample_doc\<lparr>oa_Servers := [Some \<lparr>srv_URL = ''''\<rparr>]\<rparr>)) =
     Return (Some (errors_New '''' ''servers[0].'' 0 ErrRequired)) \<and>
   Server_Sanitize sample_callees (Some \<lparr>srv_URL = ''''\<rparr>) =
     Return (Some (errors_New '''' ''url'' 0 ErrRequired))"
  by (simp add: OpenAPI_Sanitize_def Sanitize_from_Servers_def sample_callees_def sample_doc_def
        errors_New_def Itoa.simps digit_char_def)

subsection \<open>The servers\<close>

text \<open>
  Claim C8, as amended. Sanitize reaches the servers only when the version (given or
  defaulted) is valid and the \<^verbatim>\<open>Info\<close> is present and passes its own Sanitize. Then
  an empty \<^verbatim>\<open>oa.Servers\<close> is replaced by the one entry \<^verbatim>\<open>&Server{URL: "/"}\<close>; a list
  that is not empty is left as it is, its entries go through \<^verbatim>\<open>Server.Sanitize\<close> in
  order, and at the first entry for which that returns an error Sanitize returns this
  error (nothing is said here about what its field path is then).
\<close>

theorem Sanitize_servers:
  assumes "SemVerValid cs (if oa_OpenAPI oa = '''' then LatestVersion else oa_OpenAPI oa)"
    and "oa_Info oa = Some info" and "Info_Sanitize cs info = Return None"
  shows "(oa_Servers oa = [] \<longrightarrow>
            oa_Servers (snd (OpenAPI_Sanitize cs oa)) = [Some \<lparr>srv_URL = ''/''\<rparr>]) \<and>
         (oa_Servers oa \<noteq> [] \<longrightarrow>
            oa_Servers (snd (OpenAPI_Sanitize cs oa)) = oa_Servers oa \<and>
            (\<forall>i e. i < length (oa_Servers oa) \<and>
                   (\<forall>j<i. Server_Sanitize cs (oa_Servers oa ! j) = Return None) \<and>
                   Server_Sanitize cs (oa_Servers oa ! i) = Return (Some e) \<longrightarrow>
                   (\<exists>f. fst (OpenAPI_Sanitize cs oa) = Return (Some (e\<lparr>Field := f\<rparr>)))))"
proof (intro conjI impI allI)
  assume "oa_Servers oa = []"
  then show "oa_Servers (snd (OpenAPI_Sanitize cs oa)) = [Some \<lparr>srv_URL = ''/''\<rparr>]"
    by (simp add: OpenAPI_Sanitize_past_Info [OF assms])
next
  assume "oa_Servers oa \<noteq> []"
  then show "oa_Servers (snd (OpenAPI_Sanitize cs oa)) = oa_Servers oa"
    by (simp add: OpenAPI_Sanitize_past_Info [OF assms])
next
  fix i e
  assume ne: "oa_Servers oa \<noteq> []"
    and first: "i < length (oa_Servers oa) \<and>
      (\<forall>j<i. Server_Sanitize cs (oa_Servers oa ! j) = Return None) \<and>
      Server_Sanitize cs (oa_Servers oa ! i) = Return (Some e)"
  from first have "range_Servers cs 0 (oa_Servers oa) =
      Return (Some (e\<lparr>Field := ''servers['' @ Itoa (0 + i) @ ''].''\<rparr>))"
    by (intro range_Servers_first_failure) auto
  with ne have "fst (OpenAPI_Sanitize cs oa) =
      Return (Some (e\<lparr>Field := ''servers['' @ Itoa (0 + i) @ ''].''\<rparr>))"
    by (simp add: OpenAPI_Sanitize_past_Info [OF assms] Sanitize_from_Servers_def)
  then show "\<exists>f. fst (OpenAPI_Sanitize cs oa) = Return (Some (e\<lparr>Field := f\<rparr>))" ..
qed

text \<open>
  The theorem at the sample document, which declares no server, and at the same
  document with three servers of which the second has no URL.
\<close>

theorem Sanitize_servers_witness:
  "oa_Servers (snd (OpenAPI_Sanitize sample_callees sample_doc)) = [Some \<lparr>srv_URL = ''/''\<rparr>] \<and>
   (\<exists>f. fst (OpenAPI_Sanitize sample_callees
            (sample_doc\<lparr>oa_Servers := [Some \<lparr>srv_URL = ''/v1''\<rparr>, Some \<lparr>srv_URL = ''''\<rparr>, None]\<rparr>)) =
         Return (Some (errors_New '''' f 0 ErrRequired)))"
proof -
  have valid: "SemVerValid sample_callees
      (if oa_OpenAPI sample_doc = '''' then LatestVersion else oa_OpenAPI sample_doc)"
    and inf: "oa_Info sample_doc = Some ''Pet store''"
    and ok: "Info_Sanitize sample_callees ''Pet store'' = Return None"
    by (simp_all add: sample_callees_def sample_doc_def)
  let ?d = "sample_doc\<lparr>oa_Servers := [Some \<lparr>srv_URL = ''/v1''\<rparr>, Some \<lparr>srv_URL = ''''\<rparr>, None]\<rparr>"
  have valid': "SemVerValid sample_callees
      (if oa_OpenAPI ?d = '''' then LatestVersion else oa_OpenAPI ?d)"
    and inf': "oa_Info ?d = Some ''Pet store''"
    by (simp_all add: sample_callees_def sample_doc_def)
  have "oa_Servers (snd (OpenAPI_Sanitize sample_callees sample_doc)) = [Some \<lparr>srv_URL = ''/''\<rparr>]"
    using Sanitize_servers [OF valid inf ok] by (simp add: sample_doc_def)
  moreover have "\<exists>f. fst (OpenAPI_Sanitize sample_callees ?d) =
      Return (Some ((errors_New '''' ''url'' 0 ErrRequired)\<lparr>Field := f\<rparr>))"
    using Sanitize_servers [OF valid' inf' ok]
    by (simp add: sample_callees_def) (force simp: nth_Cons' less_Suc_eq)
  ultimately show ?thesis by (simp add: errors_New_def)
qed

text \<open>
  Claim C8 promises the default for every document with no server. A document with no
  server and no \<^verbatim>\<open>Info\<close> leaves Sanitize with the error on \<^verbatim>\<open>info\<close> and its list of
  servers still empty.
\<close>

theorem Sanitize_servers_counterexample:
  "oa_Servers (sample_doc\<lparr>oa_Info := None\<rparr>) = [] \<and>
   OpenAPI_Sanitize sample_callees (sample_doc\<lparr>oa_Info := None\<rparr>) =
     (Return (Some (errors_New '''' ''info'' 0 ErrRequired)), sample_doc\<lparr>oa_Info := None\<rparr>)"
  by (simp add: OpenAPI_Sanitize_def sample_callees_def sample_doc_def)

subsection \<open>The paths\<close>

text \<open>
  Claim C9, as amended. When the version (given or defaulted) is valid, the \<^verbatim>\<open>Info\<close>
  is present and passes its own Sanitize, every server (the declared ones, or the
  default one when none is declared) passes \<^verbatim>\<open>Server.Sanitize\<close>, and \<^verbatim>\<open>oa.Paths\<close> is
  empty, Sanitize returns \<^verbatim>\<open>errors.New("", "paths", 0, locale.ErrRequired)\<close>.
\<close>

theorem Sanitize_paths:
  assumes "SemVerValid cs (if oa_OpenAPI oa = '''' then LatestVersion else oa_OpenAPI oa)"
    and "oa_Info oa = Some info" and "Info_Sanitize cs info = Return None"
    and "\<forall>srv \<in> set (if oa_Servers oa = [] then [Some \<lparr>srv_URL = ''/''\<rparr>] else oa_Servers oa).
           Server_Sanitize cs srv = Return None"
    and "oa_Paths oa = []"
  shows "fst (OpenAPI_Sanitize cs oa) = Return (Some (errors_New '''' ''paths'' 0 ErrRequired))"
proof -
  from assms(4) have "range_Servers cs 0 (if oa_Servers oa = [] then [Some \<lparr>srv_URL = ''/''\<rparr>] else oa_Servers oa) = Return None"
    by (rule range_Servers_all_pass)
  with assms(5) show ?thesis
    by (simp add: OpenAPI_Sanitize_past_Info [OF assms(1-3)] Sanitize_from_Servers_def)
qed

theorem Sanitize_paths_witness:
  "fst (OpenAPI_Sanitize sample_callees (sample_doc\<lparr>oa_Paths := []\<rparr>)) =
     Return (Some (errors_New '''' ''paths'' 0 ErrRequired))"
  using Sanitize_paths [of sample_callees "sample_doc\<lparr>oa_Paths := []\<rparr>" "''Pet store''"]
  by (simp add: sample_callees_def sample_doc_def)

text \<open>
  Claim C9 asks only for a valid version, a present \<^verbatim>\<open>Info\<close> and no path. With an
  \<^verbatim>\<open>Info\<close> that is present and fails its own Sanitize, the error is the one of the
  \<^verbatim>\<open>Info\<close>, under \<^verbatim>\<open>info.\<close>, and the paths are never looked at.
\<close>

theorem Sanitize_paths_counterexample:
  "SemVerValid sample_callees (oa_OpenAPI (sample_doc\<lparr>oa_Info := Some '''', oa_Paths := []\<rparr>)) \<and>
   oa_Info (sample_doc\<lparr>oa_Info := Some '''', oa_Paths := []\<rparr>) \<noteq> None \<and>
   oa_Paths (sample_doc\<lparr>oa_Info := Some '''', oa_Paths := []\<rparr>) = [] \<and>
   fst (OpenAPI_Sanitize sample_callees (sample_doc\<lparr>oa_Info := Some '''', oa_Paths := []\<rparr>)) =
     Return (Some (errors_New '''' ''info.title'' 0 ErrRequired))"
  by (simp add: OpenAPI_Sanitize_def sample_callees_def sample_doc_def errors_New_def)

section \<open>Properties of the tag parsers\<close>

subsection \<open>Tokens and fields\<close>

lemma tokens_dropWhile_space: "tokens (dropWhile is_space s) = tokens s"
  by (induction s) auto

lemma tokens_Nil_iff: "tokens s = [] \<longleftrightarrow> dropWhile is_space s = []"
  by (induction s) auto

lemma length_split_fields: "length (split_fields n s) = min n (length (tokens s))"
proof (induction n arbitrary: s)
  case 0
  show ?case by simp
next
  case (Suc n)
  show ?case
  proof (cases "dropWhile is_space s")
    case Nil
    then have "tokens s = []" by (simp only: tokens_Nil_iff)
    with Nil show ?thesis by simp
  next
    case (Cons c cs)
    then have c: "\<not> is_space c"
      using hd_dropWhile [of is_space s] by simp
    have "tokens s = tokens (c # cs)"
      using Cons tokens_dropWhile_space [of s] by simp
    with c have toks: "length (tokens s) = Suc (length (tokens (dropWhile (\<lambda>x. \<not> is_space x) cs)))"
      by simp
    show ?thesis
    proof (cases n)
      case 0
      with Cons toks show ?thesis by simp
    next
      case (Suc m)
      with Cons c toks Suc.IH [of "dropWhile (\<lambda>x. \<not> is_space x) cs"] show ?thesis
        by simp
    qed
  qed
qed

lemma tokens_append_space: "is_space c \<Longrightarrow> tokens (a @ c # b) = tokens a @ tokens b"
proof (induction a rule: tokens.induct)
  case 1
  then show ?case by simp
next
  case (2 x xs)
  show ?case
  proof (cases "is_space x")
    case True
    with 2 show ?thesis by simp
  next
    case False
    from 2(3) have tw: "takeWhile (\<lambda>x. \<not> is_space x) (xs @ c # b) = takeWhile (\<lambda>x. \<not> is_space x) xs"
      by (simp add: takeWhile_tail)
    from 2(3) have dw: "dropWhile (\<lambda>x. \<not> is_space x) (xs @ c # b) = dropWhile (\<lambda>x. \<not> is_space x) xs @ c # b"
      by (simp add: dropWhile_append3)
    from False 2(2) 2(3) tw dw show ?thesis by simp
  qed
qed

lemma to_lower_cases:
  "to_lower a = a \<or> (a, to_lower a) \<in> set (zip upper_letters lower_letters)"
  unfolding to_lower_def
  by (cases "map_of (zip upper_letters lower_letters) a") (auto dest: map_of_SomeD)

lemma to_lower_of_upper:
  "\<forall>p \<in> set (zip upper_letters lower_letters). to_lower (fst p) = snd p"
  by (simp add: to_lower_def upper_letters_def lower_letters_def)

lemma to_lower_of_lower: "\<forall>b \<in> set lower_letters. to_lower b = b"
  by (simp add: to_lower_def upper_letters_def lower_letters_def)

lemma lower_not_upper: "\<forall>b \<in> set lower_letters. b \<notin> set upper_letters"
  by (simp add: upper_letters_def lower_letters_def)

lemma to_lower_eq_lower:
  assumes "b \<in> set lower_letters"
  shows "to_lower a = b \<longleftrightarrow> same_letter a b"
proof
  assume "to_lower a = b"
  with to_lower_cases [of a] show "same_letter a b"
    by (auto simp: same_letter_def)
next
  assume "same_letter a b"
  then consider "a = b" | "(a, b) \<in> set (zip upper_letters lower_letters)"
    | "(b, a) \<in> set (zip upper_letters lower_letters)"
    unfolding same_letter_def by blast
  then show "to_lower a = b"
  proof cases
    case 1
    with assms to_lower_of_lower show ?thesis by blast
  next
    case 2
    with to_lower_of_upper show ?thesis by fastforce
  next
    case 3
    then have "b \<in> set upper_letters" by (rule set_zip_leftD)
    with assms lower_not_upper show ?thesis by blast
  qed
qed

lemma map_to_lower_eq:
  "set y \<subseteq> set lower_letters \<Longrightarrow> map to_lower x = y \<longleftrightarrow> equal_fold x y"
  unfolding equal_fold_def
proof (induction x arbitrary: y)
  case Nil
  show ?case by auto
next
  case (Cons a x)
  show ?case
  proof (cases y)
    case Nil
    then show ?thesis by simp
  next
    case (Cons b y')
    with Cons.prems have "b \<in> set lower_letters" and "set y' \<subseteq> set lower_letters" by auto
    with Cons.IH [of y'] to_lower_eq_lower [of b a] Cons show ?thesis by simp
  qed
qed

lemma split_at_newline:
  assumes "drop (Suc (length (takeWhile (\<lambda>c. c \<noteq> newline) text))) text \<noteq> []"
  shows "text = takeWhile (\<lambda>c. c \<noteq> newline) text @ newline #
                drop (Suc (length (takeWhile (\<lambda>c. c \<noteq> newline) text))) text"
proof -
  let ?line = "takeWhile (\<lambda>c. c \<noteq> newline) text"
  let ?tail = "dropWhile (\<lambda>c. c \<noteq> newline) text"
  have whole: "text = ?line @ ?tail" by simp
  have dr: "drop (Suc (length ?line)) text = tl ?tail"
    by (simp add: dropWhile_eq_drop drop_Suc tl_drop)
  from assms have nonempty: "tl ?tail \<noteq> []" unfolding dr .
  have ne: "?tail \<noteq> []"
  proof
    assume "?tail = []"
    then have "tl ?tail = []" by (simp only: list.sel)
    with nonempty show False by contradiction
  qed
  from ne have "hd ?tail = newline"
    using hd_dropWhile [of "\<lambda>c. c \<noteq> newline" "text"] by simp
  with ne have "?tail = newline # tl ?tail"
    by (cases ?tail) auto
  with whole dr show ?thesis by metis
qed

lemma split_fields_two:
  assumes pre: "\<forall>c\<in>set pre. is_space c"
    and m: "m \<noteq> []" "\<forall>c\<in>set m. \<not> is_space c"
    and sep: "sep \<noteq> []" "\<forall>c\<in>set sep. is_space c"
    and s: "s \<noteq> []" "\<not> is_space (hd s)"
  shows "split_fields 2 (pre @ m @ sep @ s) = [m, s]"
proof -
  from m obtain c cs where mc: "m = c # cs" and c: "\<not> is_space c"
    by (cases m) auto
  from sep obtain x xs where sx: "sep = x # xs" and x: "is_space x"
    by (cases sep) auto
  from s obtain y ys where sy: "s = y # ys" and y: "\<not> is_space y"
    by (cases s) auto
  have skip: "dropWhile is_space (pre @ m @ sep @ s) = m @ sep @ s"
    using pre c by (simp add: mc)
  have word: "takeWhile (\<lambda>x. \<not> is_space x) (m @ sep @ s) = m"
    using m(2) x by (simp add: sx)
  have after: "dropWhile (\<lambda>x. \<not> is_space x) (m @ sep @ s) = sep @ s"
    using m(2) x by (simp add: sx)
  have last: "dropWhile is_space (sep @ s) = s"
    using sep(2) y by (simp add: sy)
  have "split_fields (Suc (Suc 0)) (pre @ m @ sep @ s) = [m, s]"
    using m(1) s(1) by (simp add: skip word after last)
  then show ?thesis by (simp only: numeral_2_eq_2)
qed

lemma parseExample_line:
  assumes "\<forall>c\<in>set line. c \<noteq> newline" and "split_fields 2 line = [m, s]"
    and "dropWhile is_space v \<noteq> []"
  shows "parseExample (line @ newline # v) b =
           b\<lparr>body_Examples := body_Examples b @ [\<lparr>e_Mimetype = m, e_Summary = s, e_Value = v\<rparr>]\<rparr>"
proof -
  have line: "takeWhile (\<lambda>c. c \<noteq> newline) (line @ newline # v) = line"
    using assms(1) by (subst takeWhile_append2) auto
  have rest: "drop (Suc (length line)) (line @ newline # v) = v"
    by simp
  show ?thesis
    unfolding parseExample_def line rest Let_def using assms(2,3) by simp
qed

subsection \<open>The example parser\<close>

text \<open>
  Claim C5. Take a tag body made of a mimetype \<open>m\<close> (a token: not empty, no whitespace),
  a separator \<open>sep\<close> of whitespace on the same line, a summary \<open>s\<close> (not empty, starting
  with a token, with no newline in it), a newline and a value \<open>v\<close> that is not blank;
  whitespace \<open>pre\<close> may come first. Then \<open>parseExample\<close> appends to the Examples of
  the Body, after those already there, the one Example with mimetype \<open>m\<close>, summary \<open>s\<close>
  and value \<open>v\<close>, character for character; nothing else of the Body changes. Parsing the
  same body twice appends the same Example twice, in order.
\<close>

theorem parseExample_appends:
  assumes pre: "\<forall>c\<in>set pre. is_space c \<and> c \<noteq> newline"
    and m: "m \<noteq> []" "\<forall>c\<in>set m. \<not> is_space c"
    and sep: "sep \<noteq> []" "\<forall>c\<in>set sep. is_space c \<and> c \<noteq> newline"
    and s: "s \<noteq> []" "\<not> is_space (hd s)" "newline \<notin> set s"
    and v: "\<exists>c\<in>set v. \<not> is_space c"
  shows "parseExample (pre @ m @ sep @ s @ newline # v) body =
           body\<lparr>body_Examples := body_Examples body @
                  [\<lparr>e_Mimetype = m, e_Summary = s, e_Value = v\<rparr>]\<rparr> \<and>
         parseExample (pre @ m @ sep @ s @ newline # v)
             (parseExample (pre @ m @ sep @ s @ newline # v) body) =
           body\<lparr>body_Examples := body_Examples body @
                  [\<lparr>e_Mimetype = m, e_Summary = s, e_Value = v\<rparr>,
                   \<lparr>e_Mimetype = m, e_Summary = s, e_Value = v\<rparr>]\<rparr>"
proof -
  have nl: "is_space newline" by (simp add: is_space_def newline_def)
  with m(2) have "newline \<notin> set m" by auto
  with pre sep(2) s(3) have no_nl: "\<forall>c\<in>set ((pre @ m @ sep @ s)). c \<noteq> newline" by auto
  have two: "split_fields 2 (pre @ m @ sep @ s) = [m, s]"
    using pre m sep s(1,2) by (intro split_fields_two) auto
  from v have val: "dropWhile is_space v \<noteq> []" by auto
  have one: "parseExample (pre @ m @ sep @ s @ newline # v) b =
      b\<lparr>body_Examples := body_Examples b @ [\<lparr>e_Mimetype = m, e_Summary = s, e_Value = v\<rparr>]\<rparr>"
    for b :: "'a Body"
    using parseExample_line [OF no_nl two val, of b] by simp
  show ?thesis
    by (simp add: one)
qed

text \<open>
  The theorem at the body of the tag of \<^verbatim>\<open>TestBody_parseExample\<close> (with a shorter
  payload): the value keeps its newlines and its tab.
\<close>

theorem parseExample_appends_witness:
  "parseExample ('' application/json summary text'' @ newline # ''{'' @ newline # CHR 0x09 # ''id: 1'' @ newline # ''}'') empty_Body =
     empty_Body\<lparr>body_Examples :=
       [\<lparr>e_Mimetype = ''application/json'', e_Summary = ''summary text'',
         e_Value = ''{'' @ newline # CHR 0x09 # ''id: 1'' @ newline # ''}''\<rparr>]\<rparr>"
  using parseExample_appends [of "'' ''" "''application/json''" "'' ''" "''summary text''"
      "''{'' @ newline # CHR 0x09 # ''id: 1'' @ newline # ''}''" empty_Body]
  by (simp add: is_space_def newline_def empty_Body_def)

subsection \<open>The optional detector\<close>

text \<open>
  Claim C6. \<open>isOptional x\<close> holds exactly when \<open>x\<close> equals \<^verbatim>\<open>optional\<close> up to the case
  of its letters. It does not hold for \<^verbatim>\<open>required\<close> in any letter case, for
  \<^verbatim>\<open>optional\<close> (in any letter case) followed by more content, or for the empty string.
\<close>

theorem isOptional_iff:
  "(isOptional x \<longleftrightarrow> equal_fold x ''optional'') \<and>
   (equal_fold x ''required'' \<longrightarrow> \<not> isOptional x) \<and>
   (equal_fold p ''optional'' \<and> t \<noteq> [] \<longrightarrow> \<not> isOptional (p @ t)) \<and>
   \<not> isOptional ''''"
proof (intro conjI impI)
  show "isOptional x \<longleftrightarrow> equal_fold x ''optional''"
    unfolding isOptional_def by (rule map_to_lower_eq) (simp add: lower_letters_def)
  show "\<not> isOptional ''''"
    by (simp add: isOptional_def)
next
  assume "equal_fold x ''required''"
  moreover have "map to_lower x = ''required'' \<longleftrightarrow> equal_fold x ''required''"
    by (rule map_to_lower_eq) (simp add: lower_letters_def)
  ultimately have "map to_lower x = ''required''" by simp
  then show "\<not> isOptional x"
    by (simp add: isOptional_def)
next
  assume a: "equal_fold p ''optional'' \<and> t \<noteq> []"
  then have len: "length p = 8"
    by (auto simp: equal_fold_def dest: list_all2_lengthD)
  show "\<not> isOptional (p @ t)"
  proof
    assume "isOptional (p @ t)"
    then have "length (map to_lower (p @ t)) = length ''optional''"
      by (simp only: isOptional_def)
    with a len show False by simp
  qed
qed

theorem isOptional_iff_witness:
  "isOptional ''Optional'' \<and> isOptional ''optional'' \<and> \<not> isOptional ''required'' \<and>
   \<not> isOptional ''REQUIRED'' \<and> \<not> isOptional ''Optional ''"
proof -
  have a: "equal_fold ''Optional'' ''optional''" and b: "equal_fold ''optional'' ''optional''"
    and c: "equal_fold ''required'' ''required''" and d: "equal_fold ''REQUIRED'' ''required''"
    by (simp_all add: equal_fold_def same_letter_def upper_letters_def lower_letters_def)
  have "\<not> isOptional (''Optional'' @ '' '')"
    using isOptional_iff [of "''REQUIRED''" "''Optional''" "'' ''"] a by blast
  then have e: "\<not> isOptional ''Optional ''" by simp
  from a b c d e show ?thesis
    using isOptional_iff [of "''Optional''"] isOptional_iff [of "''optional''"]
      isOptional_iff [of "''required''"] isOptional_iff [of "''REQUIRED''"]
    by blast
qed

subsection \<open>The header parser on the inputs of its test\<close>

text \<open>
  The two headers of \<^verbatim>\<open>TestBody_parseHeader\<close>, parsed into an empty Body one after the
  other (the summary of the first in ASCII): the names keep their case, the second token
  decides \<open>h_Optional\<close>, and the headers stand in the order of the calls.
\<close>

lemma TestBody_parseHeader:
  "parseHeader '' ETag optional etag'' (parseHeader '' content-type required json or xml'' empty_Body) =
     \<lparr>body_Headers =
        [\<lparr>h_Name = ''content-type'', h_Summary = ''json or xml'', h_Optional = False\<rparr>,
         \<lparr>h_Name = ''ETag'', h_Summary = ''etag'', h_Optional = True\<rparr>],
      body_Examples = [], body_Type = None\<rparr>"
  by (simp add: parseHeader_def empty_Body_def numeral_3_eq_3 is_space_def isOptional_def to_lower_def
        upper_letters_def lower_letters_def)

subsection \<open>The minimum-token policy\<close>

text \<open>
  Claim C7. The grammars of \<^verbatim>\<open>@apiExample\<close> (mimetype, summary, value) and of
  \<^verbatim>\<open>@apiHeader\<close> (name, required or optional, summary) both need three tokens. On a
  tag body with fewer tokens each parser gives the Body back as it got it, Headers and
  Examples included; neither parser has an error to report.
\<close>

theorem below_minimum_no_op:
  "(length (tokens text) < 3 \<longrightarrow> parseExample text body = body) \<and>
   (length (tokens text) < 3 \<longrightarrow> parseHeader text body = body)"
proof (intro conjI impI)
  assume few: "length (tokens text) < 3"
  then have "length (split_fields 3 text) < 3"
    by (simp add: length_split_fields)
  then show "parseHeader text body = body"
    by (auto simp: parseHeader_def split: list.splits)
next
  assume few: "length (tokens text) < 3"
  let ?line = "takeWhile (\<lambda>c. c \<noteq> newline) text"
  let ?rest = "drop (Suc (length ?line)) text"
  show "parseExample text body = body"
  proof (rule ccontr)
    assume changed: "parseExample text body \<noteq> body"
    then have two: "length (split_fields 2 ?line) = 2" and val: "dropWhile is_space ?rest \<noteq> []"
      by (auto simp: parseExample_def Let_def split: list.splits if_splits)
    from two have "2 \<le> length (tokens ?line)"
      by (simp add: length_split_fields)
    moreover from val have "tokens ?rest \<noteq> []"
      by (simp add: tokens_Nil_iff)
    moreover from val have "?rest \<noteq> []" by auto
    then have "text = ?line @ newline # ?rest" by (rule split_at_newline)
    then have "tokens text = tokens ?line @ tokens ?rest"
      using tokens_append_space [of newline ?line ?rest]
      by (simp add: is_space_def newline_def)
    ultimately have "3 \<le> length (tokens text)"
      by (cases "tokens ?rest") auto
    with few show False by simp
  qed
qed

theorem below_minimum_no_op_witness:
  "parseExample ''application/json''
     \<lparr>body_Headers = [\<lparr>h_Name = ''ETag'', h_Summary = ''etag'', h_Optional = True\<rparr>],
      body_Examples = [], body_Type = None :: unit option\<rparr> =
     \<lparr>body_Headers = [\<lparr>h_Name = ''ETag'', h_Summary = ''etag'', h_Optional = True\<rparr>],
      body_Examples = [], body_Type = None\<rparr> \<and>
   parseHeader ''ETag''
     \<lparr>body_Headers = [\<lparr>h_Name = ''ETag'', h_Summary = ''etag'', h_Optional = True\<rparr>],
      body_Examples = [], body_Type = None :: unit option\<rparr> =
     \<lparr>body_Headers = [\<lparr>h_Name = ''ETag'', h_Summary = ''etag'', h_Optional = True\<rparr>],
      body_Examples = [], body_Type = None\<rparr>"
proof -
  have one: "length (tokens ''application/json'') < 3" and two: "length (tokens ''ETag'') < 3"
    by (simp_all add: is_space_def)
  from one two show ?thesis
    using below_minimum_no_op [of "''application/json''"] below_minimum_no_op [of "''ETag''"]
    by blast
qed

end
